theory Spec2Isabelle
  imports Complex_Main "HOL-Library.Char_ord" "HOL-Library.List_Lexorder"
begin

section \<open>Constants of transcriber.py\<close>

definition CHUNK_DURATION :: nat where
  "CHUNK_DURATION = 30"

definition SAMPLE_RATE :: nat where
  "SAMPLE_RATE = 16000"

definition CHANNELS :: nat where
  "CHANNELS = 1"

definition CHUNK_SIZE :: nat where
  "CHUNK_SIZE = 1024"

section \<open>Python strings and numbers\<close>

text \<open>
  Strings are ASCII \<open>char list\<close>s. \<open>digits\<close> is the decimal numeral of a natural
  number, \<open>str_int\<close> is Python's \<open>str\<close> of an int, and \<open>fmt_0d w\<close> is the format
  specification \<open>{n:0wd}\<close>: zero padding to width \<open>w\<close>, the sign counted in the width.
\<close>

fun digits :: "nat \<Rightarrow> string" where
  "digits n =
     (if n < 10 then [''0123456789'' ! n]
      else digits (n div 10) @ [''0123456789'' ! (n mod 10)])"

declare digits.simps [simp del]

definition str_int :: "int \<Rightarrow> string" where
  "str_int n = (if n < 0 then CHR ''-'' # digits (nat (- n)) else digits (nat n))"

definition fmt_0d :: "nat \<Rightarrow> int \<Rightarrow> string" where
  "fmt_0d w n =
     (if n < 0
      then CHR ''-'' # replicate (w - 1 - length (digits (nat (- n)))) (CHR ''0'') @ digits (nat (- n))
      else replicate (w - length (digits (nat n))) (CHR ''0'') @ digits (nat n))"

text \<open>
  \<open>str.strip()\<close> with no argument removes leading and trailing whitespace; on ASCII
  text the whitespace characters are the blank, \<open>\t \n \v \f \r\<close> and the four
  separators \<open>0x1C .. 0x1F\<close>.
\<close>

definition is_space :: "char \<Rightarrow> bool" where
  "is_space c =
     (c \<in> set [CHR '' '', CHR 0x09, CHR 0x0A, CHR 0x0B, CHR 0x0C, CHR 0x0D,
                CHR 0x1C, CHR 0x1D, CHR 0x1E, CHR 0x1F])"

definition strip :: "string \<Rightarrow> string" where
  "strip s = rev (dropWhile is_space (rev (dropWhile is_space s)))"

text \<open>\<open>sep.join(xs)\<close>, \<open>s.endswith(suf)\<close> and \<open>s.split(c)\<close> for a one-character separator.\<close>

fun join :: "string \<Rightarrow> string list \<Rightarrow> string" where
  "join sep [] = []"
| "join sep [x] = x"
| "join sep (x # y # ys) = x @ sep @ join sep (y # ys)"

definition endswith :: "string \<Rightarrow> string \<Rightarrow> bool" where
  "endswith s suf = (length suf \<le> length s \<and> drop (length s - length suf) s = suf)"

fun split :: "char \<Rightarrow> string \<Rightarrow> string list" where
  "split c [] = [[]]"
| "split c (x # xs) =
     (if x = c then [] # split c xs
      else (case split c xs of [] \<Rightarrow> [[x]] | w # ws \<Rightarrow> (x # w) # ws))"

text \<open>
  \<open>int(s)\<close> on a string: surrounding whitespace is ignored, one sign is allowed, and the
  rest must be a non-empty run of decimal digits; anything else raises \<open>ValueError\<close>
  (\<open>None\<close> here). Python also accepts single underscores between digits; the only caller
  passes a piece of a string split at underscores, which holds none.
\<close>

definition is_digit :: "char \<Rightarrow> bool" where
  "is_digit c = (c \<in> set ''0123456789'')"

definition digit_val :: "char \<Rightarrow> int" where
  "digit_val c = int (length (takeWhile (\<lambda>d. d \<noteq> c) ''0123456789''))"

definition parse_digits :: "string \<Rightarrow> int option" where
  "parse_digits ds =
     (if ds \<noteq> [] \<and> list_all is_digit ds
      then Some (foldl (\<lambda>a c. 10 * a + digit_val c) 0 ds) else None)"

definition py_int :: "string \<Rightarrow> int option" where
  "py_int s =
     (case strip s of
        [] \<Rightarrow> None
      | c # r \<Rightarrow>
          if c = CHR ''-'' then map_option uminus (parse_digits r)
          else if c = CHR ''+'' then parse_digits r
          else parse_digits (c # r))"

section \<open>format_timestamp\<close>

text \<open>
  \<open>format_timestamp(seconds)\<close>: \<open>minutes = int(seconds // 60)\<close>, \<open>seconds = int(seconds % 60)\<close>,
  rendered as \<open>{minutes:02d}:{seconds:02d}\<close>. Times are real numbers here; \<open>//\<close> is the
  floor of the quotient and \<open>%\<close> the remainder with the sign of the divisor, which lies in
  \<open>[0, 60)\<close>, where \<open>int\<close> is the floor.
\<close>

definition format_timestamp :: "real \<Rightarrow> string" where
  "format_timestamp seconds =
     (let minutes = \<lfloor>seconds / 60\<rfloor>;
          secs = \<lfloor>seconds - 60 * of_int \<lfloor>seconds / 60\<rfloor>\<rfloor>
      in fmt_0d 2 minutes @ '':'' @ fmt_0d 2 secs)"

section \<open>The reply of the transcription service\<close>

text \<open>
  One element of the reply's \<open>segments\<close> array. Every field is read with \<open>segment.get\<close>,
  so every key may be absent (\<open>None\<close>); for \<open>speaker\<close> and \<open>speaker_id\<close> a JSON null
  reads as absent too. A value that is present has the type the service documents: a
  string for \<open>speaker\<close> and \<open>text\<close>, an integer for \<open>speaker_id\<close>, a number of seconds
  for \<open>start\<close> and \<open>end\<close>.
\<close>

record raw_segment =
  seg_speaker :: "string option"
  seg_speaker_id :: "int option"
  seg_start :: "real option"
  seg_end :: "real option"
  seg_text :: "string option"

text \<open>
  The parsed JSON object: the keys \<open>segments\<close> and \<open>text\<close> may each be present or not.
  A body that is not JSON makes \<open>response.json()\<close> raise.
\<close>

record reply =
  segments :: "raw_segment list option"
  reply_text :: "string option"

datatype body = Json reply | NotJson

text \<open>\<open>requests.post\<close> either raises (no connection, timeout) or returns a response.\<close>

datatype api_outcome = ConnectionError | Response int body

datatype exn = RequestException | JSONDecodeError

section \<open>transcribe_audio: the loop over the reply's segments\<close>

text \<open>
  What the loop appends for one segment: the two normalised times, the speaker label and
  the stripped text. \<open>format_segment\<close> is the f-string that renders it.
\<close>

record segment =
  start_time :: real
  end_time :: real
  speaker :: string
  stext :: string

definition format_segment :: "segment \<Rightarrow> string" where
  "format_segment s =
     ''['' @ format_timestamp (start_time s) @ '' - '' @ format_timestamp (end_time s) @ ''] ''
       @ speaker s @ '': '' @ stext s"

text \<open>The loop's variables; \<open>speaker_count\<close> is the local that shadows the parameter.\<close>

record loop_state =
  formatted_text :: "segment list"
  first_timestamp :: "real option"
  current_speaker :: "string option"
  speaker_count :: int

definition loop_init :: loop_state where
  "loop_init =
     \<lparr>formatted_text = [], first_timestamp = None, current_speaker = None, speaker_count = 0\<rparr>"

text \<open>
  The fallback for a segment with neither \<open>speaker\<close> nor \<open>speaker_id\<close>: the first one sets
  the current speaker to \<open>Speaker 1\<close>, every later one toggles the counter between 1 and 2.
\<close>

definition alternate :: "loop_state \<Rightarrow> loop_state" where
  "alternate st =
     (if current_speaker st = None
      then st\<lparr>current_speaker := Some ''Speaker 1'', speaker_count := 1\<rparr>
      else st\<lparr>speaker_count := (speaker_count st mod 2) + 1,
              current_speaker := Some (''Speaker '' @ str_int ((speaker_count st mod 2) + 1))\<rparr>)"

definition resolve_speaker :: "loop_state \<Rightarrow> raw_segment \<Rightarrow> string \<times> loop_state" where
  "resolve_speaker st seg =
     (case seg_speaker seg of
        Some sp \<Rightarrow> (sp, st)
      | None \<Rightarrow>
          (case seg_speaker_id seg of
             Some speaker_id \<Rightarrow> (''Speaker '' @ str_int (speaker_id + 1), st)
           | None \<Rightarrow>
               (case current_speaker (alternate st) of
                  Some cur \<Rightarrow> (cur, alternate st)
                | None \<Rightarrow> ([], alternate st))))"

definition get_start :: "raw_segment \<Rightarrow> real" where
  "get_start seg = (case seg_start seg of None \<Rightarrow> 0 | Some t \<Rightarrow> t)"

definition get_end :: "raw_segment \<Rightarrow> real" where
  "get_end seg = (case seg_end seg of None \<Rightarrow> 0 | Some t \<Rightarrow> t)"

definition get_text :: "raw_segment \<Rightarrow> string" where
  "get_text seg = strip (case seg_text seg of None \<Rightarrow> [] | Some t \<Rightarrow> t)"

definition segment_step :: "loop_state \<Rightarrow> raw_segment \<Rightarrow> loop_state" where
  "segment_step st seg =
     (let (spk, st1) = resolve_speaker st seg;
          first = (case first_timestamp st1 of None \<Rightarrow> get_start seg | Some f \<Rightarrow> f);
          s = max 0 (get_start seg - first);
          e = max 0 (get_end seg - first);
          t = get_text seg
      in st1\<lparr>first_timestamp := Some first,
              formatted_text :=
                (if t \<noteq> []
                 then formatted_text st1 @ [\<lparr>start_time = s, end_time = e, speaker = spk, stext = t\<rparr>]
                 else formatted_text st1)\<rparr>)"

definition segments_loop :: "raw_segment list \<Rightarrow> segment list" where
  "segments_loop segs = formatted_text (foldl segment_step loop_init segs)"

section \<open>transcribe_audio: the request and the handling of the response\<close>

text \<open>
  A pydub \<open>AudioSegment\<close>: the samples and the three format fields the constructor is
  given. \<open>max_possible_amplitude\<close> is pydub's property of that name: half of
  \<open>2 ** (sample_width * 8)\<close>, a function of the sample width alone. \<open>peak\<close> is pydub's
  \<open>max\<close>, the largest absolute sample value actually present.
\<close>

record audio_segment =
  raw_data :: "int list"
  sample_width :: nat
  frame_rate :: nat
  channels :: nat

definition max_possible_amplitude :: "audio_segment \<Rightarrow> real" where
  "max_possible_amplitude a = 2 ^ (sample_width a * 8) / 2"


text \<open>
  The pydub operations whose results the program only passes on are parameters:
  \<open>normalize()\<close>, \<open>AudioSegment.silent(duration)\<close> and the concatenation \<open>+\<close>.
\<close>

record pydub =
  normalize :: "audio_segment \<Rightarrow> audio_segment"
  silent :: "nat \<Rightarrow> audio_segment"
  plus :: "audio_segment \<Rightarrow> audio_segment \<Rightarrow> audio_segment"

definition prepare_audio :: "pydub \<Rightarrow> int list \<Rightarrow> audio_segment" where
  "prepare_audio lib audio_data =
     (let seg0 = \<lparr>raw_data = audio_data, sample_width = 2,
                  frame_rate = SAMPLE_RATE, channels = CHANNELS\<rparr>;
          seg1 = (if max_possible_amplitude seg0 > 0 then normalize lib seg0 else seg0);
          silence = silent lib 100
      in plus lib (plus lib silence seg1) silence)"

text \<open>The multipart request: the exported file and the form fields that vary.\<close>

record request =
  req_file :: audio_segment
  req_prompt :: "string option"
  req_speaker_count :: string

definition build_request :: "pydub \<Rightarrow> int list \<Rightarrow> string option \<Rightarrow> int \<Rightarrow> request" where
  "build_request lib audio_data prompt spk_count =
     \<lparr>req_file = prepare_audio lib audio_data,
      req_prompt = (case prompt of None \<Rightarrow> None | Some p \<Rightarrow> if p \<noteq> [] then Some p else None),
      req_speaker_count = str_int spk_count\<rparr>"

text \<open>
  The code after \<open>requests.post\<close>, inside the \<open>try\<close>: \<open>Inl\<close> is an exception on its way
  to the \<open>except Exception\<close> clause, \<open>Inr\<close> a returned string.
\<close>

definition handle_response :: "api_outcome \<Rightarrow> exn + string" where
  "handle_response out =
     (case out of
        ConnectionError \<Rightarrow> Inl RequestException
      | Response status_code b \<Rightarrow>
          if status_code = 200 then
            (case b of
               NotJson \<Rightarrow> Inl JSONDecodeError
             | Json result \<Rightarrow>
                 (case segments result of
                    Some segs \<Rightarrow> Inr (join [CHR 0x0A] (map format_segment (segments_loop segs)))
                  | None \<Rightarrow>
                      (case reply_text result of
                         Some t \<Rightarrow> (if strip t \<noteq> [] then Inr (strip t) else Inr [])
                       | None \<Rightarrow> Inr [])))
          else Inr [])"

text \<open>
  The remote service is given from outside: the outcome of the \<open>n\<close>-th call of the run,
  for the request sent. \<open>transcribe_audio\<close> takes the number of calls made so far and
  returns it updated, next to the string it returns; the \<open>except\<close> clause turns every
  exception into the empty string. Writing the temporary WAV file and deleting it are
  taken to succeed.
\<close>

type_synonym service = "nat \<Rightarrow> request \<Rightarrow> api_outcome"

definition transcribe_audio ::
  "pydub \<Rightarrow> service \<Rightarrow> nat \<Rightarrow> int list \<Rightarrow> string option \<Rightarrow> int \<Rightarrow> string \<times> nat" where
  "transcribe_audio lib svc calls audio_data prompt spk_count =
     (let response = svc calls (build_request lib audio_data prompt spk_count)
      in (case handle_response response of Inl e \<Rightarrow> [] | Inr s \<Rightarrow> s, Suc calls))"

section \<open>File mode: save_transcript and the loop of main\<close>

text \<open>
  \<open>save_transcript(text, timestamp, output_file)\<close> opens the file for appending and writes
  one line; the file is its content, and the function returns the content after the write.
\<close>

definition save_transcript :: "string \<Rightarrow> real \<Rightarrow> string \<Rightarrow> string" where
  "save_transcript txt timestamp content =
     content @ ''['' @ format_timestamp timestamp @ ''] '' @ txt @ [CHR 0x0A]"

text \<open>
  The loop of \<open>main\<close> over the chunks of a file: \<open>transcribe_audio(chunk)\<close> with the
  default arguments (no prompt, two speakers), and \<open>save_transcript\<close> with \<open>time.time()\<close>
  when the transcript is not empty. The state is the number of calls made to the service
  and the content of \<open>transcript.txt\<close>; \<open>clock\<close> is the wall clock, read after the call
  with the given number.
\<close>

fun file_mode_loop ::
  "pydub \<Rightarrow> service \<Rightarrow> (nat \<Rightarrow> real) \<Rightarrow> nat \<times> string \<Rightarrow> int list list \<Rightarrow> nat \<times> string" where
  "file_mode_loop lib svc clock (calls, content) [] = (calls, content)"
| "file_mode_loop lib svc clock (calls, content) (chunk # chunks) =
     (case transcribe_audio lib svc calls chunk None 2 of
        (transcript, calls') \<Rightarrow>
          file_mode_loop lib svc clock
            (calls', if transcript \<noteq> [] then save_transcript transcript (clock calls) content
                     else content)
            chunks)"

section \<open>The recorded_chunks directory\<close>

text \<open>
  A directory is the list of its entries, name and content; a name occurs once. A file
  is a WAV file with its 16-bit samples or something else, which \<open>AudioSegment.from_wav\<close>
  refuses. \<open>write_file\<close> is \<open>sf.write\<close>: it replaces the file of that name or adds one.
\<close>

datatype file_content = Wav "int list" | Other

type_synonym directory = "(string \<times> file_content) list"

fun write_file :: "directory \<Rightarrow> string \<Rightarrow> file_content \<Rightarrow> directory" where
  "write_file [] name c = [(name, c)]"
| "write_file ((n, c0) # d) name c =
     (if n = name then (n, c) # d else (n, c0) # write_file d name c)"

definition remove_file :: "directory \<Rightarrow> string \<Rightarrow> directory" where
  "remove_file d name = filter (\<lambda>(n, c). n \<noteq> name) d"

text \<open>
  The start of \<open>record_audio_chunk\<close>: the directory is created when it does not exist
  (\<open>None\<close>); otherwise every listed name that ends in \<open>.wav\<close> is removed, inside a
  \<open>try\<close> of its own. \<open>removable\<close> says for which names \<open>os.remove\<close> succeeds; where it
  raises, the error is printed and the file stays.
\<close>

definition clean_up :: "(string \<Rightarrow> bool) \<Rightarrow> directory option \<Rightarrow> directory" where
  "clean_up removable output_dir =
     (case output_dir of
        None \<Rightarrow> []
      | Some files \<Rightarrow>
          foldl (\<lambda>d old_file.
                   if endswith old_file ''.wav''
                   then (if removable old_file then remove_file d old_file else d)
                   else d)
            files (map fst files))"

section \<open>record_audio_chunk\<close>

definition samples_per_chunk :: nat where
  "samples_per_chunk = SAMPLE_RATE * 30"

text \<open>
  \<open>(chunk * 32767).astype(np.int16)\<close> on one sample: the product, truncated towards
  zero, and wrapped around into the 16-bit range \<open>-32768 .. 32767\<close> when it lies outside
  it. The device delivers samples between -1 and 1, for which nothing wraps. The product is
  taken exactly here; in the code it is a 32-bit float product, whose rounding can move
  the result by one unit.
\<close>

definition to_int16 :: "real \<Rightarrow> int" where
  "to_int16 x =
     (let t = (if 0 \<le> x * 32767 then \<lfloor>x * 32767\<rfloor> else \<lceil>x * 32767\<rceil>)
      in (t + 32768) mod 65536 - 32768)"

definition chunk_filename :: "nat \<Rightarrow> string" where
  "chunk_filename n = ''chunk_'' @ fmt_0d 3 (int n) @ ''.wav''"

text \<open>
  The variables of the function: the buffer the callback appends to, the chunk counter,
  the directory, and the calls of \<open>sf.write\<close> so far (name and samples), in order.
\<close>

record recorder =
  audio_buffer :: "real list list"
  chunk_count :: nat
  dir :: directory
  written :: "(string \<times> int list) list"

text \<open>
  One pass of the \<open>while\<close> loop in which the stop event is not set. The callback runs on
  the audio thread, so blocks arrive at any moment; a pass is given with the blocks that
  arrived before its test of \<open>audio_buffer\<close>, those that arrived after
  \<open>np.concatenate\<close> and before \<open>audio_buffer.clear()\<close> (while the chunk is converted and
  written), and those that arrived between \<open>clear()\<close> and \<open>append(remaining)\<close>. When
  the pass cuts no chunk the buffer is not touched and all of them stay in it.
\<close>

record round =
  arrived :: "real list list"
  during_save :: "real list list"
  after_clear :: "real list list"

definition poll :: "recorder \<Rightarrow> round \<Rightarrow> recorder" where
  "poll st r =
     (let buf = audio_buffer st @ arrived r;
          untouched = st\<lparr>audio_buffer := buf @ during_save r @ after_clear r\<rparr>
      in if buf \<noteq> []
         then
           (let audio_data = concat buf
            in if length audio_data \<ge> samples_per_chunk
               then
                 (let chunk = map to_int16 (take samples_per_chunk audio_data);
                      n = chunk_count st + 1;
                      remaining = drop samples_per_chunk audio_data
                  in st\<lparr>audio_buffer :=
                           after_clear r @ (if length remaining > 0 then [remaining] else []),
                         chunk_count := n,
                         dir := write_file (dir st) (chunk_filename n) (Wav chunk),
                         written := written st @ [(chunk_filename n, chunk)]\<rparr>)
               else untouched)
         else untouched)"

text \<open>
  The \<open>finally\<close> block, reached when the stop event is seen: the blocks that arrived
  since the last pass are in the buffer, and a non-empty buffer is written whole as the
  final chunk.
\<close>

definition finish :: "recorder \<Rightarrow> real list list \<Rightarrow> recorder" where
  "finish st final_blocks =
     (let buf = audio_buffer st @ final_blocks
      in if buf \<noteq> []
         then
           (let audio_data = map to_int16 (concat buf);
                n = chunk_count st + 1
            in st\<lparr>audio_buffer := buf,
                   chunk_count := n,
                   dir := write_file (dir st) (chunk_filename n) (Wav audio_data),
                   written := written st @ [(chunk_filename n, audio_data)]\<rparr>)
         else st\<lparr>audio_buffer := buf\<rparr>)"

text \<open>
  The whole function for a run that the stop event ends: the clean-up, the variables at
  their initial values, the passes of the loop, the \<open>finally\<close> block. Opening the
  stream and \<open>sf.write\<close> are taken to succeed.
\<close>

definition recorder_start :: "directory \<Rightarrow> recorder" where
  "recorder_start d = \<lparr>audio_buffer = [], chunk_count = 0, dir = d, written = []\<rparr>"

definition record_audio_chunk ::
  "(string \<Rightarrow> bool) \<Rightarrow> directory option \<Rightarrow> round list \<Rightarrow> real list list \<Rightarrow> recorder" where
  "record_audio_chunk removable output_dir rounds final_blocks =
     finish (foldl poll (recorder_start (clean_up removable output_dir)) rounds) final_blocks"

section \<open>transcribe_recorded_chunks\<close>

text \<open>
  \<open>int(wav_file.split('_')[1].split('.')[0])\<close>: \<open>None\<close> when there is no second piece
  (\<open>IndexError\<close>) or the piece is not a number (\<open>ValueError\<close>).
\<close>

definition chunk_num :: "string \<Rightarrow> int option" where
  "chunk_num wav_file =
     (case split (CHR ''_'') wav_file of
        a # b # rest \<Rightarrow> (case split (CHR ''.'') b of c # rest' \<Rightarrow> py_int c | [] \<Rightarrow> None)
      | _ \<Rightarrow> None)"

text \<open>
  The body of the loop over the sorted names, with its \<open>try\<close>: a file that does not load
  is skipped before any call; an empty transcript writes nothing; a name without a chunk
  number raises after the call and writes nothing. The state is the number of calls made
  and the entries written so far, each the timestamp and the transcript.
\<close>

definition transcribe_step ::
  "pydub \<Rightarrow> service \<Rightarrow> directory \<Rightarrow> nat \<times> (int \<times> string) list \<Rightarrow> string
     \<Rightarrow> nat \<times> (int \<times> string) list" where
  "transcribe_step lib svc d st wav_file =
     (case map_of d wav_file of
        Some (Wav samples) \<Rightarrow>
          (case transcribe_audio lib svc (fst st) samples None 2 of
             (transcript, calls') \<Rightarrow>
               if transcript \<noteq> []
               then (case chunk_num wav_file of
                       Some n \<Rightarrow> (calls', snd st @ [(n * 30, transcript)])
                     | None \<Rightarrow> (calls', snd st))
               else (calls', snd st))
      | _ \<Rightarrow> st)"

definition write_entry :: "int \<times> string \<Rightarrow> string" where
  "write_entry e = ''['' @ format_timestamp (of_int (fst e)) @ ''] '' @ snd e @ [CHR 0x0A]"

text \<open>
  The entries written to \<open>recording_transcript.txt\<close>, in order; \<open>None\<close> when the function
  returns before it opens the file (no directory, or no name ending in \<open>.wav\<close>). The
  file is opened once for writing, so its content is the entries written in this run.
\<close>

definition transcribe_recorded_chunks ::
  "pydub \<Rightarrow> service \<Rightarrow> directory option \<Rightarrow> (int \<times> string) list option" where
  "transcribe_recorded_chunks lib svc output_dir =
     (case output_dir of
        None \<Rightarrow> None
      | Some d \<Rightarrow>
          (let wav_files = sort (filter (\<lambda>f. endswith f ''.wav'') (map fst d))
           in if wav_files = [] then None
              else Some (snd (foldl (transcribe_step lib svc d) (0, []) wav_files))))"

definition transcript_file :: "(int \<times> string) list \<Rightarrow> string" where
  "transcript_file entries = concat (map write_entry entries)"

text \<open>Microphone mode: the recording, then the transcription of the directory it leaves.\<close>

definition mic_mode ::
  "pydub \<Rightarrow> service \<Rightarrow> (string \<Rightarrow> bool) \<Rightarrow> directory option \<Rightarrow> round list \<Rightarrow> real list list
     \<Rightarrow> (int \<times> string) list option" where
  "mic_mode lib svc removable output_dir rounds final_blocks =
     transcribe_recorded_chunks lib svc
       (Some (dir (record_audio_chunk removable output_dir rounds final_blocks)))"

section \<open>process_audio_file\<close>

text \<open>
  The decoded file, mono at 16 kHz: \<open>len(audio)\<close> in milliseconds and the slicing
  \<open>audio[i:j]\<close> by milliseconds, both the library's. \<open>py_range stop step\<close> is
  \<open>range(0, stop, step)\<close>.
\<close>

record audio_file =
  duration_ms :: nat
  slice_ms :: "nat \<Rightarrow> nat \<Rightarrow> int list"

definition py_range :: "nat \<Rightarrow> nat \<Rightarrow> nat list" where
  "py_range stop step = map (\<lambda>k. k * step) [0..<(stop + step - 1) div step]"

definition total_chunks :: "audio_file \<Rightarrow> nat" where
  "total_chunks audio =
     duration_ms audio div (CHUNK_DURATION * 1000) +
     (if duration_ms audio mod (CHUNK_DURATION * 1000) \<noteq> 0 then 1 else 0)"

definition process_audio_file :: "audio_file \<Rightarrow> int list list" where
  "process_audio_file audio =
     map (\<lambda>i. slice_ms audio i (i + CHUNK_DURATION * 1000))
       (py_range (duration_ms audio) (CHUNK_DURATION * 1000))"

section \<open>Notions used in the statements\<close>

text \<open>A reply segment with times and text and no speaker information.\<close>

definition plain_segment :: "real \<Rightarrow> real \<Rightarrow> string \<Rightarrow> raw_segment" where
  "plain_segment s e t =
     \<lparr>seg_speaker = None, seg_speaker_id = None, seg_start = Some s, seg_end = Some e,
      seg_text = Some t\<rparr>"

definition unlabeled :: "raw_segment \<Rightarrow> bool" where
  "unlabeled seg = (seg_speaker seg = None \<and> seg_speaker_id seg = None)"

text \<open>The label of the reply's segment number \<open>i\<close> (from 0) under pure alternation.\<close>

definition fallback_label :: "nat \<Rightarrow> string" where
  "fallback_label i = (if even i then ''Speaker 1'' else ''Speaker 2'')"

text \<open>The loop's speaker variables after \<open>k\<close> segments without speaker information.\<close>

definition alt_inv :: "nat \<Rightarrow> loop_state \<Rightarrow> bool" where
  "alt_inv k st =
     (if k = 0 then current_speaker st = None
      else current_speaker st \<noteq> None \<and> speaker_count st = (if odd k then 1 else 2))"

text \<open>The value \<open>first_timestamp\<close> has after a step, and after the first step of the loop.\<close>

definition first_or :: "loop_state \<Rightarrow> raw_segment \<Rightarrow> real" where
  "first_or st seg = (case first_timestamp st of None \<Rightarrow> get_start seg | Some f \<Rightarrow> f)"

definition first_start :: "raw_segment list \<Rightarrow> real" where
  "first_start segs = (case segs of [] \<Rightarrow> 0 | s # _ \<Rightarrow> get_start s)"

definition times :: "segment \<Rightarrow> real \<times> real" where
  "times s = (start_time s, end_time s)"

text \<open>
  The reading of a returned time that subtracts the 100 ms of leading silence, never going
  below zero: the specification's words, for comparison with the loop.
\<close>

definition spec_chunk_relative :: "real \<Rightarrow> real" where
  "spec_chunk_relative t = max 0 (t - 0.1)"

text \<open>
  The outcomes on which \<open>transcribe_audio\<close> takes a failure path (an exception, a status
  other than 200, a body that is not JSON, a JSON object with neither key), those that
  are a failure of the service itself, and the valid replies that hold no usable text.
\<close>

definition failure_path :: "api_outcome \<Rightarrow> bool" where
  "failure_path out =
     (case out of
        ConnectionError \<Rightarrow> True
      | Response c b \<Rightarrow>
          (if c = 200
           then (case b of NotJson \<Rightarrow> True
                 | Json r \<Rightarrow> segments r = None \<and> reply_text r = None)
           else True))"

definition service_unavailable :: "api_outcome \<Rightarrow> bool" where
  "service_unavailable out =
     (case out of ConnectionError \<Rightarrow> True | Response c b \<Rightarrow> c \<noteq> 200)"

definition empty_result :: "api_outcome \<Rightarrow> bool" where
  "empty_result out =
     (case out of
        ConnectionError \<Rightarrow> False
      | Response c b \<Rightarrow>
          c = 200 \<and>
          (case b of
             NotJson \<Rightarrow> False
           | Json r \<Rightarrow>
               (case segments r of
                  Some segs \<Rightarrow> list_all (\<lambda>s. get_text s = []) segs
                | None \<Rightarrow> (case reply_text r of Some t \<Rightarrow> strip t = [] | None \<Rightarrow> False))))"

text \<open>
  A placeholder for the audio library in the examples. It is not the library: it leaves
  a segment as it is, its silence holds no samples, and \<open>+\<close> appends the samples. The
  services of the examples ignore the request they are sent, so no statement depends on
  what the placeholder computes.
\<close>

definition example_pydub :: pydub where
  "example_pydub =
     \<lparr>normalize = (\<lambda>a. a),
      silent = (\<lambda>ms. \<lparr>raw_data = [], sample_width = 2,
                        frame_rate = SAMPLE_RATE, channels = CHANNELS\<rparr>),
      plus = (\<lambda>a b. a\<lparr>raw_data := raw_data a @ raw_data b\<rparr>)\<rparr>"

text \<open>A service whose first call fails with status 503 and whose later calls succeed.\<close>

definition flaky_service :: service where
  "flaky_service n req =
     (if n = 0 then Response 503 NotJson
      else Response 200 (Json \<lparr>segments = None, reply_text = Some ''hello''\<rparr>))"

text \<open>A service that answers every call with the plain text \<open>hello\<close>.\<close>

definition reply_hello :: service where
  "reply_hello n req = Response 200 (Json \<lparr>segments = None, reply_text = Some ''hello''\<rparr>)"

text \<open>
  Blocks as the device delivers them, \<open>CHUNK_SIZE\<close> samples each: a silent one and one
  at half of full scale. A pass of the loop that finds two new silent blocks and cuts
  nothing, and a pass that finds one new silent block and, when it cuts, has the loud
  block arrive while the chunk is being written.
\<close>

definition block :: "real list" where
  "block = replicate 1024 0"

definition loud_block :: "real list" where
  "loud_block = replicate 1024 0.5"

definition quiet_round :: round where
  "quiet_round = \<lparr>arrived = [block, block], during_save = [], after_clear = []\<rparr>"

definition racy_round :: round where
  "racy_round = \<lparr>arrived = [block], during_save = [loud_block], after_clear = []\<rparr>"

text \<open>All blocks a pass is given, in the order of their arrival.\<close>

definition all_blocks :: "round \<Rightarrow> real list list" where
  "all_blocks r = arrived r @ during_save r @ after_clear r"

text \<open>
  An entry of the directory that the clean-up leaves in place: its name does not end in
  \<open>.wav\<close>, or its removal fails. \<open>add_chunk\<close> is one \<open>sf.write\<close> of the recorder.
\<close>

definition stays :: "(string \<Rightarrow> bool) \<Rightarrow> string \<times> file_content \<Rightarrow> bool" where
  "stays removable e = (\<not> (endswith (fst e) ''.wav'' \<and> removable (fst e)))"

definition add_chunk :: "directory \<Rightarrow> string \<times> int list \<Rightarrow> directory" where
  "add_chunk d w = write_file d (fst w) (Wav (snd w))"

text \<open>A decoded file of 65 seconds: every millisecond of a slice holds 16 samples.\<close>

definition sixty_five_seconds :: audio_file where
  "sixty_five_seconds =
     \<lparr>duration_ms = 65000, slice_ms = (\<lambda>i j. replicate (16 * (min j 65000 - i)) 0)\<rparr>"

text \<open>
  A pass during which no block arrives while a chunk is cut. The numbering of the chunks
  written so far, and the samples the recorder holds: those written and, converted, those
  still in the buffer.
\<close>

definition undisturbed :: "round \<Rightarrow> bool" where
  "undisturbed r = (during_save r = [] \<and> after_clear r = [])"

definition numbered :: "recorder \<Rightarrow> bool" where
  "numbered st =
     (chunk_count st = length (written st) \<and>
      map fst (written st) = map chunk_filename [1..<Suc (length (written st))])"

definition kept :: "recorder \<Rightarrow> int list" where
  "kept st = concat (map snd (written st)) @ map to_int16 (concat (audio_buffer st))"

text \<open>A decimal digit, seen as a character that none of the string operations treats specially.\<close>

definition plain_digit :: "char \<Rightarrow> bool" where
  "plain_digit c =
     (is_digit c \<and> \<not> is_space c \<and> c \<noteq> CHR ''_'' \<and> c \<noteq> CHR ''.'' \<and>
      c \<noteq> CHR ''-'' \<and> c \<noteq> CHR ''+'')"

section \<open>The segments loop, step by step\<close>

lemma str_int_1: "str_int 1 = ''1''"
  by (simp add: str_int_def digits.simps)

lemma str_int_2: "str_int 2 = ''2''"
  by (simp add: str_int_def digits.simps)

lemma resolve_speaker_formatted:
  "formatted_text (snd (resolve_speaker st seg)) = formatted_text st"
  by (simp add: resolve_speaker_def alternate_def split: option.splits)

lemma resolve_speaker_first:
  "first_timestamp (snd (resolve_speaker st seg)) = first_timestamp st"
  by (simp add: resolve_speaker_def alternate_def split: option.splits)

lemma segment_step_first:
  "first_timestamp (segment_step st seg) = Some (first_or st seg)"
  using resolve_speaker_first [of st seg]
  by (cases "resolve_speaker st seg") (simp add: segment_step_def first_or_def Let_def)

lemma segment_step_formatted:
  "formatted_text (segment_step st seg) =
     formatted_text st @
       (if get_text seg \<noteq> []
        then [\<lparr>start_time = max 0 (get_start seg - first_or st seg),
               end_time = max 0 (get_end seg - first_or st seg),
               speaker = fst (resolve_speaker st seg), stext = get_text seg\<rparr>]
        else [])"
  using resolve_speaker_first [of st seg] resolve_speaker_formatted [of st seg]
  by (cases "resolve_speaker st seg") (simp add: segment_step_def first_or_def Let_def)

lemma segment_step_speaker_state:
  "current_speaker (segment_step st seg) = current_speaker (snd (resolve_speaker st seg))"
  "speaker_count (segment_step st seg) = speaker_count (snd (resolve_speaker st seg))"
  by (cases "resolve_speaker st seg"; simp add: segment_step_def Let_def)+

subsection \<open>Times\<close>

lemma loop_times_from:
  "first_timestamp st = Some f \<Longrightarrow>
   map times (formatted_text (foldl segment_step st segs)) =
     map times (formatted_text st) @
     map (\<lambda>raw. (max 0 (get_start raw - f), max 0 (get_end raw - f)))
       (filter (\<lambda>raw. get_text raw \<noteq> []) segs)"
proof (induction segs arbitrary: st)
  case Nil
  then show ?case by simp
next
  case (Cons seg segs)
  have "first_timestamp (segment_step st seg) = Some f"
    using Cons.prems by (simp add: segment_step_first first_or_def)
  from Cons.IH [OF this] show ?case
    using Cons.prems by (simp add: segment_step_formatted first_or_def times_def)
qed

lemma loop_times:
  "map times (segments_loop segs) =
     map (\<lambda>raw. (max 0 (get_start raw - first_start segs),
                 max 0 (get_end raw - first_start segs)))
       (filter (\<lambda>raw. get_text raw \<noteq> []) segs)"
proof (cases segs)
  case Nil
  then show ?thesis by (simp add: segments_loop_def loop_init_def)
next
  case (Cons seg rest)
  have f: "first_timestamp (segment_step loop_init seg) = Some (get_start seg)"
    by (simp add: segment_step_first first_or_def loop_init_def)
  show ?thesis
    using loop_times_from [OF f, of rest]
    by (simp add: Cons segments_loop_def first_start_def segment_step_formatted first_or_def
        times_def loop_init_def)
qed

subsection \<open>Texts\<close>

lemma loop_texts_from:
  "map stext (formatted_text (foldl segment_step st segs)) =
     map stext (formatted_text st) @ filter (\<lambda>t. t \<noteq> []) (map get_text segs)"
  by (induction segs arbitrary: st) (simp_all add: segment_step_formatted)

lemma loop_texts:
  "map stext (segments_loop segs) = filter (\<lambda>t. t \<noteq> []) (map get_text segs)"
  by (simp add: segments_loop_def loop_texts_from loop_init_def)

lemma loop_empty:
  assumes "list_all (\<lambda>s. get_text s = []) segs"
  shows "segments_loop segs = []"
proof -
  have "filter (\<lambda>t. t \<noteq> []) (map get_text segs) = []"
    using assms by (induction segs) simp_all
  then have "map stext (segments_loop segs) = []"
    by (simp add: loop_texts)
  then show ?thesis by simp
qed

subsection \<open>Labels\<close>

lemma resolve_unlabeled:
  assumes "unlabeled seg" "alt_inv k st"
  shows "fst (resolve_speaker st seg) = fallback_label k"
    and "alt_inv (Suc k) (snd (resolve_speaker st seg))"
  using assms
  by (auto simp: unlabeled_def alt_inv_def resolve_speaker_def alternate_def fallback_label_def
      str_int_1 str_int_2 split: if_splits)

lemma loop_labels_from:
  "list_all unlabeled segs \<Longrightarrow> alt_inv k st \<Longrightarrow>
   map speaker (formatted_text (foldl segment_step st segs)) =
     map speaker (formatted_text st) @
     map (\<lambda>(i, raw). fallback_label i)
       (filter (\<lambda>(i, raw). get_text raw \<noteq> []) (enumerate k segs))"
proof (induction segs arbitrary: st k)
  case Nil
  then show ?case by simp
next
  case (Cons seg segs)
  have u: "unlabeled seg" and us: "list_all unlabeled segs"
    using Cons.prems(1) by simp_all
  have "alt_inv (Suc k) (segment_step st seg)"
    using resolve_unlabeled(2) [OF u Cons.prems(2)]
    by (simp add: alt_inv_def segment_step_speaker_state)
  from Cons.IH [OF us this] show ?case
    by (simp add: segment_step_formatted resolve_unlabeled(1) [OF u Cons.prems(2)])
qed

lemma loop_labels:
  "list_all unlabeled segs \<Longrightarrow>
   map speaker (segments_loop segs) =
     map (\<lambda>(i, raw). fallback_label i)
       (filter (\<lambda>(i, raw). get_text raw \<noteq> []) (enumerate 0 segs))"
  using loop_labels_from [of segs 0 loop_init]
  by (simp add: segments_loop_def alt_inv_def loop_init_def)

lemmas loop_eval =
  segments_loop_def loop_init_def segment_step_def resolve_speaker_def alternate_def
  plain_segment_def get_text_def get_start_def get_end_def strip_def is_space_def
  str_int_1 str_int_2 Let_def

lemmas format_eval =
  format_segment_def format_timestamp_def fmt_0d_def digits.simps

section \<open>Claims about transcribe_audio\<close>

text \<open>
  C4, as the code has it. In a reply whose segments carry neither \<open>speaker\<close> nor
  \<open>speaker_id\<close>, the segment at position \<open>i\<close> of the reply (from 0) is labelled
  \<open>Speaker 1\<close> when \<open>i\<close> is even and \<open>Speaker 2\<close> when it is odd: the first segment of the
  reply gets \<open>Speaker 1\<close> and every later one alternates relative to the segment before
  it, whether or not that segment had text. The emitted labels are those of the segments
  with non-empty text; a reply of exactly three segments, all with text, gives
  \<open>Speaker 1, Speaker 2, Speaker 1\<close>.
\<close>

theorem fallback_alternates_by_position:
  assumes "list_all unlabeled segs"
  shows "map speaker (segments_loop segs) =
           map (\<lambda>(i, raw). fallback_label i)
             (filter (\<lambda>(i, raw). get_text raw \<noteq> []) (enumerate 0 segs)) \<and>
         (length segs = 3 \<and> list_all (\<lambda>raw. get_text raw \<noteq> []) segs \<longrightarrow>
            map speaker (segments_loop segs) = [''Speaker 1'', ''Speaker 2'', ''Speaker 1''])"
proof (intro conjI impI)
  show pos: "map speaker (segments_loop segs) =
      map (\<lambda>(i, raw). fallback_label i)
        (filter (\<lambda>(i, raw). get_text raw \<noteq> []) (enumerate 0 segs))"
    by (rule loop_labels [OF assms])
  assume three: "length segs = 3 \<and> list_all (\<lambda>raw. get_text raw \<noteq> []) segs"
  then obtain a b c where abc: "segs = [a, b, c]"
    by (auto simp: numeral_3_eq_3 length_Suc_conv)
  with three assms show "map speaker (segments_loop segs) = [''Speaker 1'', ''Speaker 2'', ''Speaker 1'']"
    by (simp add: loop_labels fallback_label_def)
qed

theorem fallback_alternates_by_position_witness:
  "map speaker
     (segments_loop [plain_segment 0 4 ''good morning'', plain_segment 4 9 ''hello'',
                     plain_segment 9 12 ''shall we start'']) =
   [''Speaker 1'', ''Speaker 2'', ''Speaker 1'']"
  using fallback_alternates_by_position
    [of "[plain_segment 0 4 ''good morning'', plain_segment 4 9 ''hello'',
          plain_segment 9 12 ''shall we start'']"]
  by (simp add: unlabeled_def plain_segment_def get_text_def strip_def is_space_def
      fallback_label_def)

text \<open>
  C4 as stated fails: a reply with no speaker information and exactly three segments with
  text, the second of its four segments being blank, is labelled
  \<open>Speaker 1, Speaker 1, Speaker 2\<close>; the blank segment took the turn of \<open>Speaker 2\<close>.
\<close>

theorem blank_segment_takes_a_turn:
  "list_all unlabeled
     [plain_segment 0 1 ''hello'', plain_segment 1 2 ''  '', plain_segment 2 3 ''how'',
      plain_segment 3 4 ''fine''] \<and>
   map speaker
     (segments_loop [plain_segment 0 1 ''hello'', plain_segment 1 2 ''  '',
                     plain_segment 2 3 ''how'', plain_segment 3 4 ''fine'']) =
   [''Speaker 1'', ''Speaker 1'', ''Speaker 2'']"
  by (simp add: loop_eval unlabeled_def)

text \<open>
  C5, as the code has it. The loop subtracts from every returned start and end time the
  returned start time of the first segment of the reply (0 when that segment has no
  \<open>start\<close>), and replaces a negative difference by 0; the 100 ms of padding are not
  subtracted anywhere. The emitted segments are the ones with non-empty text, in order.
\<close>

theorem times_relative_to_first_segment:
  "map times (segments_loop segs) =
     map (\<lambda>raw. (max 0 (get_start raw - first_start segs),
                 max 0 (get_end raw - first_start segs)))
       (filter (\<lambda>raw. get_text raw \<noteq> []) segs) \<and>
   list_all (\<lambda>s. 0 \<le> start_time s \<and> 0 \<le> end_time s) (segments_loop segs)"
proof
  show eq: "map times (segments_loop segs) =
     map (\<lambda>raw. (max 0 (get_start raw - first_start segs),
                 max 0 (get_end raw - first_start segs)))
       (filter (\<lambda>raw. get_text raw \<noteq> []) segs)"
    by (rule loop_times)
  have "list_all (\<lambda>p. 0 \<le> fst p \<and> 0 \<le> snd p) (map times (segments_loop segs))"
    unfolding eq by (simp add: list_all_iff)
  then show "list_all (\<lambda>s. 0 \<le> start_time s \<and> 0 \<le> end_time s) (segments_loop segs)"
    by (simp add: list_all_iff times_def)
qed

text \<open>
  C5 as stated fails: for a reply whose only segment runs from 10 s to 20 s the loop
  emits the times 0 and 10 (the transcript line reads \<open>[00:00 - 00:10]\<close>), not the times
  9.9 and 19.9 that subtracting the padding would give.
\<close>

theorem padding_is_not_subtracted:
  "map times (segments_loop [plain_segment 10 20 ''hi'']) = [(0, 10)] \<and>
   map times (segments_loop [plain_segment 10 20 ''hi'']) \<noteq>
     [(spec_chunk_relative 10, spec_chunk_relative 20)] \<and>
   handle_response
     (Response 200 (Json \<lparr>segments = Some [plain_segment 10 20 ''hi''], reply_text = None\<rparr>)) =
   Inr ''[00:00 - 00:10] Speaker 1: hi''"
  by (simp add: loop_eval times_def spec_chunk_relative_def handle_response_def format_eval)

text \<open>
  C7. The texts of the emitted segments are the stripped texts of the reply's segments
  with the empty ones left out, so no emitted segment has an empty text; when every
  reply segment has \<open>start \<le> end\<close> (each read with its default 0), every emitted
  segment has \<open>start_time \<le> end_time\<close>; and a reply with only a \<open>text\<close> key returns the
  stripped text, the empty string when nothing but whitespace was sent.
\<close>

theorem emitted_segments_wellformed:
  "map stext (segments_loop segs) = filter (\<lambda>t. t \<noteq> []) (map get_text segs) \<and>
   list_all (\<lambda>s. stext s \<noteq> []) (segments_loop segs) \<and>
   (list_all (\<lambda>raw. get_start raw \<le> get_end raw) segs \<longrightarrow>
      list_all (\<lambda>s. start_time s \<le> end_time s) (segments_loop segs)) \<and>
   handle_response (Response 200 (Json \<lparr>segments = None, reply_text = Some t\<rparr>)) =
     Inr (strip t)"
proof (intro conjI impI)
  show "map stext (segments_loop segs) = filter (\<lambda>t. t \<noteq> []) (map get_text segs)"
    by (rule loop_texts)
  have "list_all (\<lambda>t. t \<noteq> []) (map stext (segments_loop segs))"
    unfolding loop_texts by (simp add: list_all_iff)
  then show "list_all (\<lambda>s. stext s \<noteq> []) (segments_loop segs)"
    by (simp add: list_all_iff)
  show "handle_response (Response 200 (Json \<lparr>segments = None, reply_text = Some t\<rparr>)) =
      Inr (strip t)"
    by (simp add: handle_response_def)
next
  assume ord: "list_all (\<lambda>raw. get_start raw \<le> get_end raw) segs"
  have "list_all (\<lambda>p. fst p \<le> snd p) (map times (segments_loop segs))"
    unfolding loop_times using ord by (auto simp: list_all_iff)
  then show "list_all (\<lambda>s. start_time s \<le> end_time s) (segments_loop segs)"
    by (simp add: list_all_iff times_def)
qed

theorem emitted_segments_wellformed_witness:
  "map stext (segments_loop [plain_segment 10 20 '' hi '', plain_segment 20 25 ''  '']) = [''hi''] \<and>
   list_all (\<lambda>s. start_time s \<le> end_time s)
     (segments_loop [plain_segment 10 20 '' hi '', plain_segment 20 25 ''  ''])"
  using emitted_segments_wellformed
    [of "[plain_segment 10 20 '' hi '', plain_segment 20 25 ''  '']"]
  by (simp add: plain_segment_def get_text_def get_start_def get_end_def strip_def is_space_def)

text \<open>
  C9. Whatever the service does, \<open>transcribe_audio\<close> returns a string, after one call.
  On every failure path (an exception raised by the call, a status other than 200, a body
  that is not JSON, a JSON object with neither \<open>segments\<close> nor \<open>text\<close>) the string is
  empty, every exception of the \<open>try\<close> block included; and it is empty as well for a
  valid reply with no usable text, so the two cannot be told apart by the returned value.
\<close>

theorem transcribe_audio_never_raises:
  "\<exists>s. transcribe_audio lib svc n a p k = (s, Suc n) \<and>
       (failure_path (svc n (build_request lib a p k)) \<longrightarrow> s = []) \<and>
       (empty_result (svc n (build_request lib a p k)) \<longrightarrow> s = []) \<and>
       (\<forall>e. handle_response (svc n (build_request lib a p k)) = Inl e \<longrightarrow> s = [])"
proof -
  define out where "out = svc n (build_request lib a p k)"
  define s where "s = (case handle_response out of Inl e \<Rightarrow> [] | Inr r \<Rightarrow> r)"
  have run: "transcribe_audio lib svc n a p k = (s, Suc n)"
    by (simp add: transcribe_audio_def s_def out_def)
  have fail: "s = []" if "failure_path out"
    using that
    by (auto simp: s_def failure_path_def handle_response_def
        split: api_outcome.splits body.splits if_splits)
  have empty: "s = []" if "empty_result out"
    using that
    by (auto simp: s_def empty_result_def handle_response_def loop_empty
        split: api_outcome.splits body.splits option.splits)
  have exn: "s = []" if "handle_response out = Inl e" for e
    using that by (simp add: s_def)
  from run fail empty exn show ?thesis
    unfolding out_def by blast
qed

theorem transcribe_audio_never_raises_witness:
  "fst (transcribe_audio example_pydub (\<lambda>n req. ConnectionError) 0 [1, 2] None 2) = [] \<and>
   fst (transcribe_audio example_pydub flaky_service 0 [1, 2] None 2) = [] \<and>
   fst (transcribe_audio example_pydub
          (\<lambda>n req. Response 200 (Json \<lparr>segments = Some [], reply_text = None\<rparr>)) 0 [1, 2] None 2) = []"
  using transcribe_audio_never_raises [of example_pydub "\<lambda>n req. ConnectionError" 0 "[1, 2]" None 2]
    transcribe_audio_never_raises [of example_pydub flaky_service 0 "[1, 2]" None 2]
    transcribe_audio_never_raises
      [of example_pydub "\<lambda>n req. Response 200 (Json \<lparr>segments = Some [], reply_text = None\<rparr>)"
          0 "[1, 2]" None 2]
  by (auto simp: failure_path_def empty_result_def flaky_service_def)

subsection \<open>One call for each chunk\<close>

lemma transcribe_audio_calls:
  "snd (transcribe_audio lib svc n a p k) = Suc n"
  by (simp add: transcribe_audio_def)

lemma transcribe_audio_unavailable:
  "service_unavailable (svc n (build_request lib a p k)) \<Longrightarrow>
   fst (transcribe_audio lib svc n a p k) = []"
  by (auto simp: transcribe_audio_def service_unavailable_def handle_response_def
      split: api_outcome.splits)

lemma file_mode_loop_calls:
  "fst (file_mode_loop lib svc clock (n, content) chunks) = n + length chunks"
  by (induction chunks arbitrary: n content) (simp_all add: transcribe_audio_def)

text \<open>
  C6, as the code has it. \<open>transcribe_audio\<close> makes exactly one call to the service,
  whatever its outcome; when that call raises or returns a status other than 200 it
  returns the empty string at once, with no retry and no backoff. The loop over the chunks
  of a file then writes nothing for that chunk and goes on with the following chunks:
  every chunk is submitted once.
\<close>

theorem one_call_per_chunk_no_retry:
  "snd (transcribe_audio lib svc n a p k) = Suc n \<and>
   (service_unavailable (svc n (build_request lib a p k)) \<longrightarrow>
      fst (transcribe_audio lib svc n a p k) = []) \<and>
   (service_unavailable (svc n (build_request lib a None 2)) \<longrightarrow>
      file_mode_loop lib svc clock (n, content) (a # chunks) =
      file_mode_loop lib svc clock (Suc n, content) chunks) \<and>
   fst (file_mode_loop lib svc clock (n, content) chunks) = n + length chunks"
proof (intro conjI impI)
  show "snd (transcribe_audio lib svc n a p k) = Suc n"
    by (rule transcribe_audio_calls)
  show "fst (file_mode_loop lib svc clock (n, content) chunks) = n + length chunks"
    by (rule file_mode_loop_calls)
next
  assume "service_unavailable (svc n (build_request lib a p k))"
  then show "fst (transcribe_audio lib svc n a p k) = []"
    by (rule transcribe_audio_unavailable)
next
  assume "service_unavailable (svc n (build_request lib a None 2))"
  then have "transcribe_audio lib svc n a None 2 = ([], Suc n)"
    using transcribe_audio_unavailable [of svc n lib a None 2]
      transcribe_audio_calls [of lib svc n a None 2]
    by (cases "transcribe_audio lib svc n a None 2") simp
  then show "file_mode_loop lib svc clock (n, content) (a # chunks) =
      file_mode_loop lib svc clock (Suc n, content) chunks"
    by simp
qed

theorem one_call_per_chunk_no_retry_witness:
  "transcribe_audio example_pydub flaky_service 0 [1, 2] None 2 = ([], 1) \<and>
   file_mode_loop example_pydub flaky_service (\<lambda>n. 0) (0, []) [[1, 2], [3, 4]] =
   file_mode_loop example_pydub flaky_service (\<lambda>n. 0) (1, []) [[3, 4]]"
  using one_call_per_chunk_no_retry
    [of example_pydub flaky_service 0 "[1, 2]" None 2 "\<lambda>n. 0" "[]" "[[3, 4]]"]
  by (cases "transcribe_audio example_pydub flaky_service 0 [1, 2] None 2")
     (simp add: service_unavailable_def flaky_service_def)

text \<open>
  C6 as stated fails: the first call returns status 503 and a second call would succeed,
  yet \<open>transcribe_audio\<close> returns the empty string after one call; in the loop the first
  chunk is skipped without a second attempt, and only the second chunk reaches the
  transcript.
\<close>

theorem failed_call_is_not_retried:
  "transcribe_audio example_pydub flaky_service 0 [1, 2] None 2 = ([], 1) \<and>
   transcribe_audio example_pydub flaky_service 1 [1, 2] None 2 = (''hello'', 2) \<and>
   file_mode_loop example_pydub flaky_service (\<lambda>n. 0) (0, []) [[1, 2], [3, 4]] =
     (2, ''[00:00] hello'' @ [CHR 0x0A])"
  by (simp add: transcribe_audio_def flaky_service_def handle_response_def strip_def
      is_space_def save_transcript_def format_eval)

subsection \<open>Normalisation\<close>





section \<open>The recorder\<close>

lemma replicate_two: "replicate 2 x = [x, x]"
  by (simp add: numeral_2_eq_2)

lemmas name_eval =
  chunk_filename_def fmt_0d_def digits.simps replicate_two

lemmas chunk_num_eval =
  chunk_num_def py_int_def strip_def is_space_def parse_digits_def is_digit_def digit_val_def

lemma length_concat_replicate: "length (concat (replicate n xs)) = n * length xs"
  by (induction n) simp_all

lemma concat_concat_replicate:
  "concat (concat (replicate n xss)) = concat (replicate n (concat xss))"
  by (induction n) simp_all

lemma concat_replicate_replicate:
  "concat (replicate n (replicate m x)) = replicate (n * m) x"
  by (induction n) (simp_all add: replicate_add)

subsection \<open>One pass of the loop\<close>

lemma poll_cut:
  assumes "samples_per_chunk \<le> length (concat (audio_buffer st @ arrived r))"
    and "audio_buffer st @ arrived r \<noteq> []"
  shows "written (poll st r) =
           written st @ [(chunk_filename (Suc (chunk_count st)),
             map to_int16 (take samples_per_chunk (concat (audio_buffer st @ arrived r))))]"
    and "chunk_count (poll st r) = Suc (chunk_count st)"
    and "concat (audio_buffer (poll st r)) =
           concat (after_clear r) @ drop samples_per_chunk (concat (audio_buffer st @ arrived r))"
  using assms by (simp_all add: poll_def Let_def)

lemma poll_keep:
  assumes "\<not> (samples_per_chunk \<le> length (concat (audio_buffer st @ arrived r)) \<and>
             audio_buffer st @ arrived r \<noteq> [])"
  shows "poll st r = st\<lparr>audio_buffer := audio_buffer st @ all_blocks r\<rparr>"
  using assms by (auto simp: poll_def Let_def all_blocks_def)

subsection \<open>Every chunk cut by the loop has the full size\<close>

lemma poll_sizes:
  "list_all (\<lambda>w. length (snd w) = samples_per_chunk) (written st) \<Longrightarrow>
   list_all (\<lambda>w. length (snd w) = samples_per_chunk) (written (poll st r))"
  by (cases "samples_per_chunk \<le> length (concat (audio_buffer st @ arrived r)) \<and>
             audio_buffer st @ arrived r \<noteq> []")
     (simp_all add: poll_cut poll_keep del: concat_append)

lemma polls_sizes:
  "list_all (\<lambda>w. length (snd w) = samples_per_chunk) (written st) \<Longrightarrow>
   list_all (\<lambda>w. length (snd w) = samples_per_chunk) (written (foldl poll st rounds))"
  by (induction rounds arbitrary: st) (simp_all add: poll_sizes)

subsection \<open>Chunks are numbered from 1\<close>

lemma poll_numbered: "numbered st \<Longrightarrow> numbered (poll st r)"
  by (cases "samples_per_chunk \<le> length (concat (audio_buffer st @ arrived r)) \<and>
             audio_buffer st @ arrived r \<noteq> []")
     (simp_all add: poll_cut poll_keep numbered_def)

lemma polls_numbered: "numbered st \<Longrightarrow> numbered (foldl poll st rounds)"
  by (induction rounds arbitrary: st) (simp_all add: poll_numbered)

lemma finish_numbered: "numbered st \<Longrightarrow> numbered (finish st final_blocks)"
  by (auto simp: finish_def Let_def numbered_def)

lemma record_numbered: "numbered (record_audio_chunk removable output_dir rounds final_blocks)"
  unfolding record_audio_chunk_def
  by (intro finish_numbered polls_numbered) (simp add: numbered_def recorder_start_def)

subsection \<open>No sample is lost when no block arrives during a cut\<close>

lemma poll_kept:
  "undisturbed r \<Longrightarrow> kept (poll st r) = kept st @ map to_int16 (concat (arrived r))"
proof (cases "samples_per_chunk \<le> length (concat (audio_buffer st @ arrived r)) \<and>
             audio_buffer st @ arrived r \<noteq> []")
  case True
  assume u: "undisturbed r"
  have "map to_int16 (take samples_per_chunk (concat (audio_buffer st @ arrived r))) @
        map to_int16 (drop samples_per_chunk (concat (audio_buffer st @ arrived r))) =
        map to_int16 (concat (audio_buffer st @ arrived r))"
    by (simp only: map_append [symmetric] append_take_drop_id)
  with True u show ?thesis
    by (simp add: kept_def poll_cut undisturbed_def)
next
  case False
  assume "undisturbed r"
  with False show ?thesis
    by (simp add: kept_def poll_keep all_blocks_def undisturbed_def)
qed

lemma polls_kept:
  "list_all undisturbed rounds \<Longrightarrow>
   kept (foldl poll st rounds) = kept st @ map to_int16 (concat (concat (map arrived rounds)))"
  by (induction rounds arbitrary: st) (simp_all add: poll_kept)

lemma finish_written:
  "concat (map snd (written (finish st final_blocks))) =
   kept st @ map to_int16 (concat final_blocks)"
  by (simp add: finish_def Let_def kept_def)

lemma record_kept:
  assumes "list_all undisturbed rounds"
  shows "concat (map snd (written (record_audio_chunk removable output_dir rounds final_blocks))) =
         map to_int16 (concat (concat (map arrived rounds) @ final_blocks))"
  using polls_kept [OF assms, of "recorder_start (clean_up removable output_dir)"]
  by (simp add: record_audio_chunk_def finish_written recorder_start_def kept_def)


subsection \<open>The number of chunks\<close>

lemma poll_nonempty:
  "list_all (\<lambda>b. b \<noteq> []) (audio_buffer st) \<Longrightarrow> list_all (\<lambda>b. b \<noteq> []) (arrived r) \<Longrightarrow>
   undisturbed r \<Longrightarrow> list_all (\<lambda>b. b \<noteq> []) (audio_buffer (poll st r))"
  by (simp add: poll_def Let_def undisturbed_def)

lemma polls_nonempty:
  "list_all (\<lambda>b. b \<noteq> []) (audio_buffer st) \<Longrightarrow>
   list_all (\<lambda>b. b \<noteq> []) (concat (map arrived rounds)) \<Longrightarrow>
   list_all undisturbed rounds \<Longrightarrow>
   list_all (\<lambda>b. b \<noteq> []) (audio_buffer (foldl poll st rounds))"
  by (induction rounds arbitrary: st) (simp_all add: poll_nonempty)

lemma concat_nonempty: "list_all (\<lambda>b. b \<noteq> []) bs \<Longrightarrow> bs \<noteq> [] \<Longrightarrow> concat bs \<noteq> []"
  by (cases bs) simp_all

lemma length_concat_sized:
  "list_all (\<lambda>w. length (snd w) = n) ws \<Longrightarrow> length (concat (map snd ws)) = n * length ws"
  by (induction ws) simp_all

lemma ceil_exact: "0 < n \<Longrightarrow> (n * k + n - 1) div n = (k::nat)"
proof -
  assume n: "0 < n"
  then have "n * k + n - 1 = n * k + (n - 1)" by simp
  then have "(n * k + n - 1) div n = (n * k + (n - 1)) div n" by (rule arg_cong)
  also have "\<dots> = k + (n - 1) div n" using n by (simp only: div_mult_self4) 
  also have "\<dots> = k" using n by simp
  finally show ?thesis .
qed

lemma ceil_part: "0 < r \<Longrightarrow> r \<le> n \<Longrightarrow> (n * k + r + n - 1) div n = Suc (k::nat)"
proof -
  assume r: "0 < r" "r \<le> n"
  then have n: "0 < n" by simp
  from r have "n * k + r + n - 1 = n * Suc k + (r - 1)" by simp
  then have "(n * k + r + n - 1) div n = (n * Suc k + (r - 1)) div n" by (rule arg_cong)
  also have "\<dots> = Suc k + (r - 1) div n" using n by (simp only: div_mult_self4)
  also have "\<dots> = Suc k" using r by simp
  finally show ?thesis .
qed

text \<open>
  What does hold of the recorder. When no block arrives while a chunk is cut, the
  chunks written, one after the other, are the converted input; when in addition the
  blocks are not empty and at most one chunk's worth of samples is in the buffer when
  the recording stops, every chunk has at most \<open>samples_per_chunk\<close> samples and their
  number is the input's length divided by \<open>samples_per_chunk\<close>, rounded up.
\<close>

lemma undisturbed_recording:
  fixes removable output_dir rounds final_blocks
  defines "run \<equiv> record_audio_chunk removable output_dir rounds final_blocks"
    and "input \<equiv> concat (concat (map arrived rounds) @ final_blocks)"
  assumes und: "list_all undisturbed rounds"
    and ne: "list_all (\<lambda>b. b \<noteq> []) (concat (map arrived rounds) @ final_blocks)"
    and res: "length (concat (audio_buffer run)) \<le> samples_per_chunk"
  shows "concat (map snd (written run)) = map to_int16 input"
    and "list_all (\<lambda>w. length (snd w) \<le> samples_per_chunk) (written run)"
    and "length (written run) = (length input + samples_per_chunk - 1) div samples_per_chunk"
proof -
  let ?start = "recorder_start (clean_up removable output_dir)"
  let ?st = "foldl poll ?start rounds"
  let ?buf = "audio_buffer ?st @ final_blocks"
  have spc: "0 < samples_per_chunk"
    by (simp add: samples_per_chunk_def SAMPLE_RATE_def)
  have run: "run = finish ?st final_blocks"
    by (simp add: run_def record_audio_chunk_def recorder_start_def)
  show all: "concat (map snd (written run)) = map to_int16 input"
    unfolding run_def input_def by (rule record_kept [OF und])
  have sizes: "list_all (\<lambda>w. length (snd w) = samples_per_chunk) (written ?st)"
    by (rule polls_sizes) (simp add: recorder_start_def)
  have buf_run: "audio_buffer run = ?buf"
    by (simp add: run finish_def Let_def)
  have buf_ne: "list_all (\<lambda>b. b \<noteq> []) ?buf"
    using polls_nonempty [of ?start rounds] und ne by (simp add: recorder_start_def)
  have total: "length input = samples_per_chunk * length (written ?st) + length (concat ?buf)"
  proof -
    have "kept ?st = map to_int16 (concat (concat (map arrived rounds)))"
      using polls_kept [OF und, of ?start] by (simp add: kept_def recorder_start_def)
    then have "length (kept ?st) = length (concat (concat (map arrived rounds)))"
      by simp
    then show ?thesis
      by (simp add: kept_def input_def length_concat_sized [OF sizes])
  qed
  show "list_all (\<lambda>w. length (snd w) \<le> samples_per_chunk) (written run)"
    using sizes res by (auto simp: run buf_run [unfolded run] finish_def Let_def list_all_iff)
  show "length (written run) = (length input + samples_per_chunk - 1) div samples_per_chunk"
  proof (cases "?buf = []")
    case True
    then have w: "length (written run) = length (written ?st)"
      by (simp add: run finish_def Let_def)
    from True have "concat ?buf = []" by (simp only: concat.simps)
    then have "length input = samples_per_chunk * length (written ?st)"
      by (simp only: total list.size add_0_right)
    then show ?thesis
      unfolding w by (simp only: ceil_exact [OF spc])
  next
    case False
    then have w: "length (written run) = Suc (length (written ?st))"
      by (simp add: run finish_def Let_def)
    have "concat ?buf \<noteq> []"
      by (rule concat_nonempty [OF buf_ne False])
    then have pos: "0 < length (concat ?buf)" by simp
    have le: "length (concat ?buf) \<le> samples_per_chunk"
      using res by (simp add: buf_run)
    show ?thesis
      unfolding w total by (simp only: ceil_part [OF pos le])
  qed
qed

subsection \<open>Passes that cut nothing\<close>

lemma poll_no_cut:
  assumes "length (concat (audio_buffer st @ arrived r)) < samples_per_chunk"
  shows "poll st r = st\<lparr>audio_buffer := audio_buffer st @ all_blocks r\<rparr>"
  using assms by (simp add: poll_def Let_def all_blocks_def)

lemma polls_no_cut:
  "length (concat (audio_buffer st @ concat (map all_blocks rounds))) < samples_per_chunk \<Longrightarrow>
   foldl poll st rounds = st\<lparr>audio_buffer := audio_buffer st @ concat (map all_blocks rounds)\<rparr>"
proof (induction rounds arbitrary: st)
  case Nil
  then show ?case by simp
next
  case (Cons r rounds)
  have small: "length (concat (audio_buffer st @ arrived r)) < samples_per_chunk"
    using Cons.prems by (simp add: all_blocks_def)
  have step: "poll st r = st\<lparr>audio_buffer := audio_buffer st @ all_blocks r\<rparr>"
    by (rule poll_no_cut [OF small])
  have "foldl poll (poll st r) rounds =
      (poll st r)\<lparr>audio_buffer := audio_buffer (poll st r) @ concat (map all_blocks rounds)\<rparr>"
    by (rule Cons.IH) (use Cons.prems in \<open>simp add: step\<close>)
  then show ?case by (simp add: step)
qed

lemma quiet_rounds_blocks:
  "concat (concat (replicate 234 (all_blocks quiet_round))) = replicate 479232 0"
  by (simp add: all_blocks_def quiet_round_def block_def concat_concat_replicate
      concat_replicate_replicate replicate_add [symmetric])

lemma quiet_rounds:
  "foldl poll (recorder_start d) (replicate 234 quiet_round) =
   \<lparr>audio_buffer = concat (replicate 234 (all_blocks quiet_round)), chunk_count = 0, dir = d,
    written = []\<rparr>"
  by (subst polls_no_cut)
     (simp_all add: recorder_start_def quiet_rounds_blocks samples_per_chunk_def SAMPLE_RATE_def)

text \<open>
  C1, where the code leaves it. First run: 234 passes of the loop each find two new
  blocks, 479232 samples in all, fewer than the 480000 of a chunk, so nothing is cut; one
  more block arrives and the stop event is set; the loop breaks before its test of the
  buffer, and the \<open>finally\<close> block writes all 480256 samples as one chunk. The input of
  480256 samples calls for two chunks of at most 480000 samples; one chunk of 480256
  samples is written. Second run: after the same 234 passes the next pass finds the
  block that completes the chunk and cuts it; a block of samples at half scale arrives
  while the chunk is written, and \<open>audio_buffer.clear()\<close> discards it: the two chunks
  written hold 480256 silent samples, and the 1024 loud samples are in neither.
\<close>

theorem recorder_breaks_chunk_bounds:
  "samples_per_chunk = 480000 \<and>
   map (\<lambda>(name, chunk). (name, length chunk))
     (written (record_audio_chunk (\<lambda>n. True) None (replicate 234 quiet_round) [block])) =
   [(''chunk_001.wav'', 480256)] \<and>
   written (record_audio_chunk (\<lambda>n. True) None (replicate 234 quiet_round @ [racy_round]) []) =
   [(''chunk_001.wav'', replicate 480000 0), (''chunk_002.wav'', replicate 256 0)]"
proof (intro conjI)
  show "samples_per_chunk = 480000"
    by (simp add: samples_per_chunk_def SAMPLE_RATE_def)
  show "map (\<lambda>(name, chunk). (name, length chunk))
     (written (record_audio_chunk (\<lambda>n. True) None (replicate 234 quiet_round) [block])) =
   [(''chunk_001.wav'', 480256)]"
    by (simp add: record_audio_chunk_def clean_up_def quiet_rounds finish_def Let_def
        quiet_rounds_blocks block_def name_eval)
  show "written (record_audio_chunk (\<lambda>n. True) None (replicate 234 quiet_round @ [racy_round]) []) =
   [(''chunk_001.wav'', replicate 480000 0), (''chunk_002.wav'', replicate 256 0)]"
    by (simp add: record_audio_chunk_def clean_up_def quiet_rounds finish_def poll_def Let_def
        quiet_rounds_blocks racy_round_def block_def samples_per_chunk_def SAMPLE_RATE_def
        to_int16_def Let_def name_eval replicate_add [symmetric])
qed

subsection \<open>The clean-up and the directory\<close>

lemma clean_fold:
  "foldl (\<lambda>d old_file.
            if endswith old_file ''.wav''
            then (if removable old_file then remove_file d old_file else d)
            else d) d names =
   filter (\<lambda>e. \<not> (fst e \<in> set names \<and> endswith (fst e) ''.wav'' \<and> removable (fst e))) d"
proof (induction names arbitrary: d)
  case Nil
  then show ?case by simp
next
  case (Cons name names)
  show ?case
    by (auto simp: Cons.IH remove_file_def case_prod_beta intro!: filter_cong)
qed

lemma clean_up_filter:
  "clean_up removable (Some files) = filter (stays removable) files"
  unfolding clean_up_def stays_def
  by (simp add: clean_fold) (rule filter_cong; auto)

lemma polls_dir:
  "dir st = foldl add_chunk d0 (written st) \<Longrightarrow>
   dir (foldl poll st rounds) = foldl add_chunk d0 (written (foldl poll st rounds))"
proof (induction rounds arbitrary: st)
  case Nil
  then show ?case by simp
next
  case (Cons r rounds)
  have wr: "\<And>d n c. write_file d n (Wav c) = add_chunk d (n, c)"
    by (simp add: add_chunk_def)
  have "dir (poll st r) = foldl add_chunk d0 (written (poll st r))"
    using Cons.prems by (simp add: poll_def Let_def wr)
  from Cons.IH [OF this] show ?case by simp
qed

lemma record_dir:
  "dir (record_audio_chunk removable output_dir rounds final_blocks) =
   foldl add_chunk (clean_up removable output_dir)
     (written (record_audio_chunk removable output_dir rounds final_blocks))"
proof -
  let ?start = "recorder_start (clean_up removable output_dir)"
  have "dir (foldl poll ?start rounds) =
      foldl add_chunk (clean_up removable output_dir) (written (foldl poll ?start rounds))"
    by (rule polls_dir) (simp add: recorder_start_def)
  then show ?thesis
    by (simp add: record_audio_chunk_def finish_def Let_def add_chunk_def)
qed

text \<open>
  C10, as the code has it. Before any audio is captured the directory is created when
  it does not exist; otherwise every entry whose name ends in \<open>.wav\<close> and whose removal
  succeeds is deleted, and every other entry stays: names with another ending, and
  \<open>.wav\<close> files whose removal raises (the error is printed). When every removal succeeds
  no \<open>.wav\<close> file is left. The directory at the end of the recording is the cleaned one
  with the chunks of this run written into it.
\<close>

theorem old_chunks_removed_where_removable:
  "clean_up removable None = [] \<and>
   clean_up removable (Some files) = filter (stays removable) files \<and>
   ((\<forall>name. removable name) \<longrightarrow>
      list_all (\<lambda>e. \<not> endswith (fst e) ''.wav'') (clean_up removable (Some files))) \<and>
   dir (record_audio_chunk removable output_dir rounds final_blocks) =
     foldl add_chunk (clean_up removable output_dir)
       (written (record_audio_chunk removable output_dir rounds final_blocks))"
proof (intro conjI impI)
  show "clean_up removable None = []"
    by (simp add: clean_up_def)
  show "clean_up removable (Some files) = filter (stays removable) files"
    by (rule clean_up_filter)
  show "dir (record_audio_chunk removable output_dir rounds final_blocks) =
     foldl add_chunk (clean_up removable output_dir)
       (written (record_audio_chunk removable output_dir rounds final_blocks))"
    by (rule record_dir)
next
  assume "\<forall>name. removable name"
  then show "list_all (\<lambda>e. \<not> endswith (fst e) ''.wav'') (clean_up removable (Some files))"
    by (simp add: clean_up_filter stays_def list_all_iff)
qed

theorem old_chunks_removed_where_removable_witness:
  "clean_up (\<lambda>name. True)
     (Some [(''chunk_001.wav'', Wav [1, 2]), (''chunk_002.wav'', Wav [3]), (''notes.txt'', Other)]) =
   [(''notes.txt'', Other)]"
  using old_chunks_removed_where_removable
    [of "\<lambda>name. True"
        "[(''chunk_001.wav'', Wav [1, 2]), (''chunk_002.wav'', Wav [3]), (''notes.txt'', Other)]"]
  by (simp add: stays_def endswith_def)

text \<open>
  C10 as stated fails: the directory holds two chunks of an earlier run and the removal
  of \<open>chunk_002.wav\<close> raises (the file is open elsewhere, say). After an invocation that
  records nothing the file is still there, and the transcription that follows takes it
  for a chunk of this run.
\<close>

theorem locked_old_chunk_survives:
  "dir (record_audio_chunk (\<lambda>name. name \<noteq> ''chunk_002.wav'')
          (Some [(''chunk_001.wav'', Wav [1, 2]), (''chunk_002.wav'', Wav [3]),
                 (''notes.txt'', Other)]) [] []) =
   [(''chunk_002.wav'', Wav [3]), (''notes.txt'', Other)] \<and>
   mic_mode example_pydub reply_hello (\<lambda>name. name \<noteq> ''chunk_002.wav'')
     (Some [(''chunk_001.wav'', Wav [1, 2]), (''chunk_002.wav'', Wav [3]),
            (''notes.txt'', Other)]) [] [] =
   Some [(60, ''hello'')]"
  by (simp add: mic_mode_def record_audio_chunk_def recorder_start_def finish_def clean_up_def endswith_def
      remove_file_def transcribe_recorded_chunks_def transcribe_step_def transcribe_audio_def
      reply_hello_def handle_response_def strip_def is_space_def chunk_num_eval)

section \<open>Timestamps of the transcript\<close>

subsection \<open>The number in a chunk's name reads back\<close>

lemma digit_char:
  assumes "k < 10"
  shows "is_digit (''0123456789'' ! k)" and "digit_val (''0123456789'' ! k) = int k"
    and "\<not> is_space (''0123456789'' ! k)" and "''0123456789'' ! k \<noteq> CHR ''_''"
    and "''0123456789'' ! k \<noteq> CHR ''.''" and "''0123456789'' ! k \<noteq> CHR ''-''"
    and "''0123456789'' ! k \<noteq> CHR ''+''"
proof -
  from assms have "k \<in> {0, 1, 2, 3, 4, 5, 6, 7, 8, 9}" by auto
  then show "is_digit (''0123456789'' ! k)" and "digit_val (''0123456789'' ! k) = int k"
    and "\<not> is_space (''0123456789'' ! k)" and "''0123456789'' ! k \<noteq> CHR ''_''"
    and "''0123456789'' ! k \<noteq> CHR ''.''" and "''0123456789'' ! k \<noteq> CHR ''-''"
    and "''0123456789'' ! k \<noteq> CHR ''+''"
    by (auto simp: is_digit_def digit_val_def is_space_def)
qed

lemma plain_zero: "plain_digit (CHR ''0'')"
  by (simp add: plain_digit_def is_digit_def is_space_def)

lemma digits_plain: "list_all plain_digit (digits n)"
proof (induction n rule: digits.induct)
  case (1 n)
  show ?case
  proof (cases "n < 10")
    case True
    then show ?thesis
      by (subst digits.simps) (simp add: plain_digit_def digit_char)
  next
    case False
    then have "list_all plain_digit (digits (n div 10))" by (rule "1.IH")
    moreover have "plain_digit (''0123456789'' ! (n mod 10))"
      by (simp add: plain_digit_def digit_char)
    ultimately show ?thesis
      using False by (subst digits.simps) simp
  qed
qed

lemma digits_nonempty: "digits n \<noteq> []"
  by (subst digits.simps) simp

lemma digits_value: "foldl (\<lambda>a c. 10 * a + digit_val c) 0 (digits n) = int n"
proof (induction n rule: digits.induct)
  case (1 n)
  show ?case
  proof (cases "n < 10")
    case True
    then show ?thesis
      by (subst digits.simps) (simp add: digit_char)
  next
    case False
    then have "foldl (\<lambda>a c. 10 * a + digit_val c) 0 (digits (n div 10)) = int (n div 10)"
      by (rule "1.IH")
    then show ?thesis
      using False by (subst digits.simps) (simp add: digit_char zdiv_int zmod_int)
  qed
qed

lemma zeros_value:
  "foldl (\<lambda>a c. 10 * a + digit_val c) 0 (replicate k (CHR ''0'') @ ds) =
   foldl (\<lambda>a c. 10 * a + digit_val c) 0 ds"
  by (induction k) (simp_all add: digit_val_def)

lemma strip_plain:
  assumes "list_all plain_digit ds"
  shows "strip ds = ds"
proof (cases ds rule: rev_cases)
  case Nil
  then show ?thesis by (simp add: strip_def)
next
  case (snoc xs x)
  with assms have x: "\<not> is_space x" by (simp add: plain_digit_def)
  show ?thesis
  proof (cases ds)
    case Nil
    then show ?thesis by (simp add: strip_def)
  next
    case (Cons y ys)
    with assms have "\<not> is_space y" by (simp add: plain_digit_def)
    then have "dropWhile is_space ds = ds" by (simp add: Cons)
    then show ?thesis
      using x by (simp add: strip_def snoc)
  qed
qed

lemma py_int_plain:
  assumes "list_all plain_digit ds" "ds \<noteq> []"
  shows "py_int ds = Some (foldl (\<lambda>a c. 10 * a + digit_val c) 0 ds)"
proof -
  from assms obtain c r where ds: "ds = c # r" by (cases ds) auto
  with assms have c: "c \<noteq> CHR ''-''" "c \<noteq> CHR ''+''" by (simp_all add: plain_digit_def)
  have "list_all is_digit ds"
    using assms(1) by (simp add: list_all_iff plain_digit_def)
  then show ?thesis
    unfolding py_int_def strip_plain [OF assms(1)]
    using c assms(2) by (simp add: ds parse_digits_def)
qed

lemma split_absent: "c \<notin> set xs \<Longrightarrow> split c xs = [xs]"
  by (induction xs) auto

lemma split_at: "c \<notin> set a \<Longrightarrow> split c (a @ c # b) = a # split c b"
  by (induction a) auto

lemma chunk_num_padded:
  assumes "list_all plain_digit ds" "ds \<noteq> []"
  shows "chunk_num (''chunk_'' @ ds @ ''.wav'') = py_int ds"
proof -
  have no_us: "CHR ''_'' \<notin> set (ds @ ''.wav'')" and no_dot: "CHR ''.'' \<notin> set ds"
    using assms(1) by (auto simp: list_all_iff plain_digit_def)
  have "split (CHR ''_'') (''chunk'' @ CHR ''_'' # (ds @ ''.wav'')) =
        ''chunk'' # split (CHR ''_'') (ds @ ''.wav'')"
    by (rule split_at) simp
  then have one: "split (CHR ''_'') (''chunk_'' @ ds @ ''.wav'') = [''chunk'', ds @ ''.wav'']"
    by (simp add: split_absent [OF no_us])
  have "split (CHR ''.'') (ds @ CHR ''.'' # ''wav'') = ds # split (CHR ''.'') ''wav''"
    by (rule split_at [OF no_dot])
  then have two: "split (CHR ''.'') (ds @ ''.wav'') = [ds, ''wav'']"
    by simp
  show ?thesis
    unfolding chunk_num_def one by (simp add: two)
qed

lemma chunk_num_filename: "chunk_num (chunk_filename n) = Some (int n)"
proof -
  let ?ds = "replicate (3 - length (digits n)) (CHR ''0'') @ digits n"
  have plain: "list_all plain_digit ?ds"
    using digits_plain [of n] by (auto simp: list_all_iff plain_zero)
  have ne: "?ds \<noteq> []"
    by (simp add: digits_nonempty)
  have "chunk_num (''chunk_'' @ ?ds @ ''.wav'') = py_int ?ds"
    by (rule chunk_num_padded [OF plain ne])
  also have "\<dots> = Some (foldl (\<lambda>a c. 10 * a + digit_val c) 0 ?ds)"
    by (rule py_int_plain [OF plain ne])
  also have "\<dots> = Some (int n)"
    by (simp only: zeros_value digits_value)
  finally show ?thesis
    by (simp add: chunk_filename_def fmt_0d_def)
qed

lemma written_chunk_numbers:
  "map (\<lambda>w. chunk_num (fst w))
     (written (record_audio_chunk removable output_dir rounds final_blocks)) =
   map (\<lambda>k. Some (int k + 1))
     [0..<length (written (record_audio_chunk removable output_dir rounds final_blocks))]"
proof -
  let ?w = "written (record_audio_chunk removable output_dir rounds final_blocks)"
  have names: "map fst ?w = map chunk_filename [1..<Suc (length ?w)]"
    using record_numbered [of removable output_dir rounds final_blocks]
    by (simp only: numbered_def)
  have "map (\<lambda>w. chunk_num (fst w)) ?w = map chunk_num (map fst ?w)"
    by simp
  also have "\<dots> = map (\<lambda>n. Some (int n)) [1..<Suc (length ?w)]"
    by (simp only: names map_map comp_def chunk_num_filename)
  also have "\<dots> = map (\<lambda>n. Some (int n)) (map Suc [0..<length ?w])"
    by (simp only: map_Suc_upt One_nat_def)
  also have "\<dots> = map (\<lambda>k. Some (int k + 1)) [0..<length ?w]"
    by simp
  finally show ?thesis .
qed

subsection \<open>The chunks of a file\<close>

lemma ceil_div_split:
  fixes n d :: nat
  assumes "0 < d"
  shows "(n + d - 1) div d = n div d + (if n mod d \<noteq> 0 then 1 else 0)"
proof (cases "n mod d = 0")
  case True
  then obtain k where k: "n = d * k" by (auto simp: mod_eq_0_iff_dvd)
  show ?thesis
    using True ceil_exact [OF assms, of k] assms by (simp add: k)
next
  case False
  then have pos: "0 < n mod d" by simp
  have le: "n mod d \<le> d" using assms by (simp add: less_imp_le)
  have "n = d * (n div d) + n mod d" by simp
  then have "(n + d - 1) div d = (d * (n div d) + n mod d + d - 1) div d" by simp
  also have "\<dots> = Suc (n div d)" by (rule ceil_part [OF pos le])
  finally show ?thesis using False by simp
qed

lemma length_process_audio_file:
  "length (process_audio_file audio) = total_chunks audio"
  using ceil_div_split [of "CHUNK_DURATION * 1000" "duration_ms audio"]
  by (simp add: process_audio_file_def py_range_def total_chunks_def CHUNK_DURATION_def)

subsection \<open>The entries written\<close>

text \<open>
  Within a run the transcript only grows: a step of either loop leaves what was written
  before in place and adds at most one entry after it.
\<close>

lemma transcribe_step_appends:
  "\<exists>es. snd (transcribe_step lib svc d st wav_file) = snd st @ es"
  by (auto simp: transcribe_step_def split: option.splits file_content.splits prod.splits)

lemma transcribe_steps_append:
  "\<exists>es. snd (foldl (transcribe_step lib svc d) st wav_files) = snd st @ es"
proof (induction wav_files arbitrary: st)
  case Nil
  then show ?case by simp
next
  case (Cons f fs)
  obtain es1 where one: "snd (transcribe_step lib svc d st f) = snd st @ es1"
    using transcribe_step_appends by blast
  obtain es2 where rest: "snd (foldl (transcribe_step lib svc d) (transcribe_step lib svc d st f) fs) =
      snd (transcribe_step lib svc d st f) @ es2"
    using Cons.IH by blast
  show ?case
    by (rule exI [of _ "es1 @ es2"]) (simp add: rest one)
qed

lemma file_mode_loop_appends:
  "\<exists>more. snd (file_mode_loop lib svc clock (n, content) chunks) = content @ more"
proof (induction chunks arbitrary: n content)
  case Nil
  then show ?case by simp
next
  case (Cons chunk chunks)
  obtain t m where call: "transcribe_audio lib svc n chunk None 2 = (t, m)"
    by (cases "transcribe_audio lib svc n chunk None 2")
  show ?case
  proof (cases "t = []")
    case True
    then show ?thesis using Cons.IH [of m content] by (simp add: call)
  next
    case False
    obtain more where "snd (file_mode_loop lib svc clock (m, save_transcript t (clock n) content) chunks) =
        save_transcript t (clock n) content @ more"
      using Cons.IH by blast
    then show ?thesis
      using False by (simp add: call save_transcript_def)
  qed
qed

lemma upt_3: "[0..<3] = [0, 1, 2]"
  by (simp add: numeral_3_eq_3 upt_rec)

lemmas transcribe_eval =
  transcribe_recorded_chunks_def endswith_def transcribe_step_def transcribe_audio_def
  reply_hello_def handle_response_def strip_def is_space_def chunk_num_eval

text \<open>
  C2, where the code leaves it. In microphone mode the counter is incremented before the
  file is named, so in every run the chunk with index \<open>k\<close> (from 0) carries the number
  \<open>k + 1\<close> in its name, which is the number the transcription multiplies by 30. The
  first chunk of a run is \<open>chunk_001.wav\<close>, and its transcript is written with the
  timestamp \<open>1 * 30\<close>: the line reads \<open>[00:30]\<close> for audio that starts at 0 s. Three
  chunks get 30, 60 and 90 where the claim has 0, 30 and 60. In file mode a 65-second
  file does give three chunks of 30 s, 30 s and 5 s, but the timestamp passed to
  \<open>save_transcript\<close> is the wall clock, not an offset.
\<close>

theorem first_chunk_stamped_thirty:
  "map (\<lambda>w. chunk_num (fst w))
     (written (record_audio_chunk removable output_dir rounds final_blocks)) =
   map (\<lambda>k. Some (int k + 1))
     [0..<length (written (record_audio_chunk removable output_dir rounds final_blocks))] \<and>
   mic_mode example_pydub reply_hello (\<lambda>name. True) None [] [block] = Some [(30, ''hello'')] \<and>
   transcript_file [(30, ''hello'')] = ''[00:30] hello'' @ [CHR 0x0A] \<and>
   transcribe_recorded_chunks example_pydub reply_hello
     (Some [(''chunk_001.wav'', Wav [1]), (''chunk_002.wav'', Wav [2]),
            (''chunk_003.wav'', Wav [3])]) =
   Some [(30, ''hello''), (60, ''hello''), (90, ''hello'')] \<and>
   map length (process_audio_file sixty_five_seconds) = [480000, 480000, 80000] \<and>
   file_mode_loop example_pydub reply_hello (\<lambda>n. 1762243200) (0, []) [[1, 2]] =
   (1, ''[29370720:00] hello'' @ [CHR 0x0A])"
proof (intro conjI)
  show "map (\<lambda>w. chunk_num (fst w))
     (written (record_audio_chunk removable output_dir rounds final_blocks)) =
   map (\<lambda>k. Some (int k + 1))
     [0..<length (written (record_audio_chunk removable output_dir rounds final_blocks))]"
    by (rule written_chunk_numbers)
  show "mic_mode example_pydub reply_hello (\<lambda>name. True) None [] [block] =
      Some [(30, ''hello'')]"
    by (simp add: mic_mode_def record_audio_chunk_def recorder_start_def finish_def clean_up_def Let_def name_eval
        transcribe_eval)
  show "transcript_file [(30, ''hello'')] = ''[00:30] hello'' @ [CHR 0x0A]"
    by (simp add: transcript_file_def write_entry_def format_eval)
  show "transcribe_recorded_chunks example_pydub reply_hello
     (Some [(''chunk_001.wav'', Wav [1]), (''chunk_002.wav'', Wav [2]),
            (''chunk_003.wav'', Wav [3])]) =
   Some [(30, ''hello''), (60, ''hello''), (90, ''hello'')]"
    by (simp add: transcribe_eval)
  show "map length (process_audio_file sixty_five_seconds) = [480000, 480000, 80000]"
    by (simp add: process_audio_file_def py_range_def CHUNK_DURATION_def upt_3
        sixty_five_seconds_def)
  show "file_mode_loop example_pydub reply_hello (\<lambda>n. 1762243200) (0, []) [[1, 2]] =
   (1, ''[29370720:00] hello'' @ [CHR 0x0A])"
    by (simp add: transcribe_audio_def reply_hello_def handle_response_def strip_def
        is_space_def save_transcript_def format_eval)
qed

text \<open>
  C3, where the code leaves it. The recorder names its thousandth chunk
  \<open>chunk_1000.wav\<close>, and \<open>sorted\<close> compares names as strings, so that name comes before
  \<open>chunk_101.wav\<close>. The transcript of a recording of 1000 chunks therefore has the entry
  stamped 30000 s between those stamped 3000 s and 3030 s: the start times written
  are not in non-decreasing order. (The entries are only ever appended, and the calls
  are made one after the other.)
\<close>

theorem thousandth_chunk_out_of_order:
  "chunk_filename 1000 = ''chunk_1000.wav'' \<and>
   sort [''chunk_100.wav'', ''chunk_101.wav'', ''chunk_1000.wav''] =
     [''chunk_100.wav'', ''chunk_1000.wav'', ''chunk_101.wav''] \<and>
   transcribe_recorded_chunks example_pydub reply_hello
     (Some [(''chunk_100.wav'', Wav [1]), (''chunk_101.wav'', Wav [2]),
            (''chunk_1000.wav'', Wav [3])]) =
   Some [(3000, ''hello''), (30000, ''hello''), (3030, ''hello'')] \<and>
   transcript_file [(3000, ''hello''), (30000, ''hello''), (3030, ''hello'')] =
     ''[50:00] hello'' @ [CHR 0x0A] @ ''[500:00] hello'' @ [CHR 0x0A] @
     ''[50:30] hello'' @ [CHR 0x0A]"
proof (intro conjI)
  show "chunk_filename 1000 = ''chunk_1000.wav''"
    by (simp add: name_eval)
  show "sort [''chunk_100.wav'', ''chunk_101.wav'', ''chunk_1000.wav''] =
     [''chunk_100.wav'', ''chunk_1000.wav'', ''chunk_101.wav'']"
    by simp
  show "transcribe_recorded_chunks example_pydub reply_hello
     (Some [(''chunk_100.wav'', Wav [1]), (''chunk_101.wav'', Wav [2]),
            (''chunk_1000.wav'', Wav [3])]) =
   Some [(3000, ''hello''), (30000, ''hello''), (3030, ''hello'')]"
    by (simp add: transcribe_eval)
  show "transcript_file [(3000, ''hello''), (30000, ''hello''), (3030, ''hello'')] =
     ''[50:00] hello'' @ [CHR 0x0A] @ ''[500:00] hello'' @ [CHR 0x0A] @
     ''[50:30] hello'' @ [CHR 0x0A]"
    by (simp add: transcript_file_def write_entry_def format_eval)
qed

end
